theory Spec2Isabelle
  imports Main
begin

section \<open>Python strings and the built-ins the runners rely on\<close>

text \<open>
  A Python \<open>str\<close> is a sequence of Unicode code points, and \<open>str.splitlines\<close> breaks
  lines at code points beyond ASCII (U+0085, U+2028, U+2029), so a string is modelled as
  the list of its code points. \<open>lit\<close> turns an ASCII literal into that representation.
\<close>

type_synonym pystr = "nat list"

definition lit :: "string \<Rightarrow> pystr" where
  "lit s = map of_char s"

definition LF :: nat where "LF = 10"
definition CR :: nat where "CR = 13"

text \<open>
  The line boundaries of \<open>str.splitlines\<close>: LF, VT, FF, CR, FS, GS, RS, NEL, LS, PS.
\<close>

definition is_linebreak :: "nat \<Rightarrow> bool" where
  "is_linebreak c \<longleftrightarrow> c \<in> {10, 11, 12, 13, 28, 29, 30, 133, 8232, 8233}"

text \<open>After the end of a line: skip one line break, reading CR LF as a single break.\<close>

fun skip_break :: "pystr \<Rightarrow> pystr" where
  "skip_break [] = []"
| "skip_break [c] = []"
| "skip_break (c # d # cs) = (if c = CR \<and> d = LF then cs else d # cs)"

text \<open>
  \<open>str.splitlines()\<close> (keepends false): while input remains, take the characters up to
  the next line break as one line and skip that break. The empty string has no lines, and
  a final line break does not open a further line.
\<close>

function splitlines :: "pystr \<Rightarrow> pystr list" where
  "splitlines s =
     (if s = [] then []
      else takeWhile (\<lambda>c. \<not> is_linebreak c) s
           # splitlines (skip_break (dropWhile (\<lambda>c. \<not> is_linebreak c) s)))"
  by pat_completeness auto
termination
proof (relation "measure length")
  show "wf (measure length)" by simp
next
  fix s :: pystr
  assume ne: "s \<noteq> []"
  let ?r = "dropWhile (\<lambda>c. \<not> is_linebreak c) s"
  show "(skip_break ?r, s) \<in> measure length"
  proof (cases ?r)
    case Nil
    then have "skip_break ?r = []"
      by (simp only: skip_break.simps)
    with ne show ?thesis by simp
  next
    case (Cons c cs)
    have "length (skip_break (c # cs)) < length (c # cs)"
      by (cases cs) auto
    moreover have "length ?r \<le> length s"
      by (rule length_dropWhile_le)
    ultimately show ?thesis using Cons by simp
  qed
qed

declare splitlines.simps [simp del]

text \<open>\<open>sep.join(parts)\<close>.\<close>

fun join :: "pystr \<Rightarrow> pystr list \<Rightarrow> pystr" where
  "join sep [] = []"
| "join sep [x] = x"
| "join sep (x # y # ys) = x @ sep @ join sep (y # ys)"

text \<open>\<open>str(n)\<close> for an \<open>int\<close>, as an f-string formats it: decimal, with a minus sign.\<close>

fun str_nat :: "nat \<Rightarrow> pystr" where
  "str_nat n = (if n < 10 then [48 + n] else str_nat (n div 10) @ [48 + n mod 10])"

declare str_nat.simps [simp del]

definition str_int :: "int \<Rightarrow> pystr" where
  "str_int i = (if i < 0 then 45 # str_nat (nat (- i)) else str_nat (nat i))"

text \<open>
  The slice \<open>xs[start:]\<close>: a negative start counts from the end and is clamped at 0, a
  non-negative one is clamped at the length.
\<close>

definition slice_from :: "int \<Rightarrow> 'a list \<Rightarrow> 'a list" where
  "slice_from start xs =
     (let n = int (length xs);
          i = (if start < 0 then max (start + n) 0 else min start n)
      in drop (nat i) xs)"

section \<open>The output truncator\<close>

text \<open>
  \<open>HdcRunner._truncate_output\<close> and \<open>HvigorRunner._truncate_output\<close> have the same
  body; \<open>truncate_output\<close> is that body.
\<close>

definition truncation_notice :: "int \<Rightarrow> nat \<Rightarrow> pystr" where
  "truncation_notice max_lines total_lines =
     lit ''[Output truncated: showing last '' @ str_int max_lines @ lit '' of ''
       @ str_nat total_lines @ lit '' lines]''"

definition truncate_output :: "pystr \<Rightarrow> int \<Rightarrow> pystr" where
  "truncate_output output max_lines =
     (if output = [] then output
      else
        let lines = splitlines output;
            total_lines = length lines
        in if int total_lines \<le> max_lines then output
           else
             let truncated_lines = slice_from (- max_lines) lines
             in truncation_notice max_lines total_lines @ [LF] @ join [LF] truncated_lines)"

section \<open>Exceptions and the operating system\<close>

text \<open>
  A raised exception is a value: the name of its class, the names of the classes it
  derives from, and what \<open>str(exc)\<close> does. The \<open>__str__\<close> of an exception class is
  code like any other: \<open>str(exc)\<close> gives a text (\<open>Inr\<close>) or raises in its turn
  (\<open>Inl\<close>). A function that can raise returns \<open>py_exc + 'a\<close>, with \<open>Inl\<close> for the
  exception.
\<close>

datatype py_exc =
  PyExc (exc_class: pystr) (exc_bases: "pystr list") (exc_str: "py_exc + pystr")

definition isinstance :: "py_exc \<Rightarrow> pystr \<Rightarrow> bool" where
  "isinstance e cls \<longleftrightarrow> cls = exc_class e \<or> cls \<in> set (exc_bases e)"

definition Exception_bases :: "pystr list" where
  "Exception_bases = [lit ''Exception'', lit ''BaseException'', lit ''object'']"

definition RuntimeError :: "pystr \<Rightarrow> py_exc" where
  "RuntimeError msg = PyExc (lit ''RuntimeError'') Exception_bases (Inr msg)"

definition ValueError :: "pystr \<Rightarrow> py_exc" where
  "ValueError msg = PyExc (lit ''ValueError'') Exception_bases (Inr msg)"

definition TypeError :: "pystr \<Rightarrow> py_exc" where
  "TypeError msg = PyExc (lit ''TypeError'') Exception_bases (Inr msg)"

text \<open>\<open>class InvalidArgumentsError(ValueError)\<close> of \<open>service_bootstrap.py\<close>.\<close>

definition InvalidArgumentsError :: "pystr \<Rightarrow> py_exc" where
  "InvalidArgumentsError msg =
     PyExc (lit ''InvalidArgumentsError'') (lit ''ValueError'' # Exception_bases) (Inr msg)"

text \<open>
  What the code reads from its surroundings: the expansion of variables and of the home
  directory in a path, what a path names on disk (following links; \<open>None\<close> when
  nothing exists there), and the environment of the process. \<open>os.path.expanduser\<close>
  can raise: for \<open>~name\<close> it looks the name up with \<open>pwd.getpwnam\<close> and catches
  \<open>KeyError\<close> only, so the \<open>ValueError\<close> for a name with a NUL character leaves it.
  \<open>os.path.expandvars\<close> and the tests \<open>exists\<close>, \<open>isfile\<close>, \<open>isdir\<close> return
  for every string.
\<close>

datatype file_kind = RegularFile | Directory | OtherKind

record os_env =
  expandvars :: "pystr \<Rightarrow> pystr"
  expanduser :: "pystr \<Rightarrow> py_exc + pystr"
  path_kind :: "pystr \<Rightarrow> file_kind option"
  environ :: "pystr \<rightharpoonup> pystr"



definition isdir :: "os_env \<Rightarrow> pystr \<Rightarrow> bool" where
  "isdir os p \<longleftrightarrow> path_kind os p = Some Directory"




section \<open>The executable resolver\<close>






section \<open>The process invokers\<close>

text \<open>
  Captured output is text or bytes. When the process completes, \<open>text=True\<close> makes it
  text. The partial output that \<open>TimeoutExpired\<close> carries is another matter: on POSIX
  \<open>subprocess\<close> raises the exception with the bytes read so far, whatever \<open>text\<close>
  says (or with \<open>None\<close> when nothing was read); on Windows it is text.
\<close>

datatype py_output = Text pystr | Bytes "nat list"

text \<open>
  \<open>subprocess.run\<close> is outside the program. Its four ways of ending, as the two
  \<open>run\<close> methods tell them apart: the process completes (with its output and exit
  code), \<open>TimeoutExpired\<close> (with the partial output, each part possibly \<open>None\<close>),
  \<open>FileNotFoundError\<close>, or any other exception. The spawn itself is a parameter of the
  model, a function of what \<open>run\<close> hands to \<open>subprocess.run\<close>: the command, the
  working directory, the timeout and the environment.
\<close>

datatype spawn_result =
    Completed pystr pystr int
  | TimeoutExpired "py_output option" "py_output option"
  | FileNotFoundError
  | OtherException py_exc

type_synonym 't spawn = "pystr list \<Rightarrow> pystr option \<Rightarrow> 't \<Rightarrow> (pystr \<rightharpoonup> pystr) \<Rightarrow> spawn_result"

text \<open>
  \<open>HdcResult\<close>, and \<open>HvigorResult\<close>, which has the same fields and \<open>cwd\<close>. The two
  output fields are declared \<open>str\<close> and hold whatever \<open>run\<close> puts there.
\<close>

record hdc_result =
  command :: "pystr list"
  stdout :: py_output
  stderr :: py_output
  returncode :: int
  timed_out :: bool

record hvigor_result = hdc_result +
  cwd :: pystr

text \<open>
  \<open>bytes.splitlines()\<close>: the same loop as for \<open>str\<close>, with LF and CR the only line
  breaks.
\<close>

definition is_bytes_linebreak :: "nat \<Rightarrow> bool" where
  "is_bytes_linebreak c \<longleftrightarrow> c = LF \<or> c = CR"

function bytes_splitlines :: "nat list \<Rightarrow> nat list list" where
  "bytes_splitlines s =
     (if s = [] then []
      else takeWhile (\<lambda>c. \<not> is_bytes_linebreak c) s
           # bytes_splitlines (skip_break (dropWhile (\<lambda>c. \<not> is_bytes_linebreak c) s)))"
  by pat_completeness auto
termination
proof (relation "measure length")
  show "wf (measure length)" by simp
next
  fix s :: "nat list"
  assume ne: "s \<noteq> []"
  let ?r = "dropWhile (\<lambda>c. \<not> is_bytes_linebreak c) s"
  show "(skip_break ?r, s) \<in> measure length"
  proof (cases ?r)
    case Nil
    then have "skip_break ?r = []"
      by (simp only: skip_break.simps)
    with ne show ?thesis by simp
  next
    case (Cons c cs)
    have "length (skip_break (c # cs)) < length (c # cs)"
      by (cases cs) auto
    moreover have "length ?r \<le> length s"
      by (rule length_dropWhile_le)
    ultimately show ?thesis using Cons by simp
  qed
qed

declare bytes_splitlines.simps [simp del]

text \<open>
  \<open>_truncate_output\<close> on whatever it is handed. On text it is \<open>truncate_output\<close>. On
  bytes the two early returns give the bytes back; past them, the notice is a \<open>str\<close>
  and \<open>"\n".join\<close> of a list of bytes raises \<open>TypeError\<close> at its first item (of an
  empty list it is the empty \<open>str\<close>).
\<close>

definition truncate_output_any :: "py_output \<Rightarrow> int \<Rightarrow> py_exc + py_output" where
  "truncate_output_any output max_lines =
     (case output of
        Text s \<Rightarrow> Inr (Text (truncate_output s max_lines))
      | Bytes b \<Rightarrow>
          if b = [] then Inr (Bytes b)
          else
            let lines = bytes_splitlines b;
                total_lines = length lines
            in if int total_lines \<le> max_lines then Inr (Bytes b)
               else
                 let truncated_lines = slice_from (- max_lines) lines
                 in if truncated_lines = [] then
                      Inr (Text (truncation_notice max_lines total_lines @ [LF]))
                    else
                      Inl (TypeError
                             (lit ''sequence item 0: expected str instance, bytes found'')))"

text \<open>
  \<open>x or default\<close> for the partial output: \<open>None\<close>, the empty string and the empty
  bytes are false.
\<close>

definition or_else :: "py_output option \<Rightarrow> pystr \<Rightarrow> py_output" where
  "or_else x d =
     (case x of
        None \<Rightarrow> Text d
      | Some (Text s) \<Rightarrow> if s = [] then Text d else Text s
      | Some (Bytes b) \<Rightarrow> if b = [] then Text d else Bytes b)"

text \<open>\<open>os.environ.copy()\<close>, updated with \<open>env\<close> when that is given and not empty.\<close>

definition final_env :: "os_env \<Rightarrow> (pystr \<rightharpoonup> pystr) option \<Rightarrow> (pystr \<rightharpoonup> pystr)" where
  "final_env os env = (case env of None \<Rightarrow> environ os | Some e \<Rightarrow> environ os ++ e)"

text \<open>
  The command of \<open>HdcRunner.run\<close>: the executable, then \<open>-t\<close> and the device when
  a device is given and not empty, then the arguments.
\<close>

definition hdc_command :: "pystr \<Rightarrow> pystr option \<Rightarrow> pystr list \<Rightarrow> pystr list" where
  "hdc_command executable device args =
     [executable]
     @ (case device of None \<Rightarrow> [] | Some d \<Rightarrow> if d = [] then [] else [lit ''-t'', d])
     @ args"

text \<open>
  \<open>HdcRunner.run\<close>. The calls to the logger are left out: they do not take part in
  what \<open>run\<close> returns or raises. In the handler of \<open>TimeoutExpired\<close> the standard
  output is truncated, then the standard error (or the fallback message), and the result
  is built from the two. The handler has no \<open>try\<close> of its own, and an exception raised
  in a handler is not caught by the other \<open>except\<close> clauses of the same \<open>try\<close>: what
  the truncation raises, \<open>run\<close> raises.
\<close>

definition hdc_run ::
  "os_env \<Rightarrow> 't spawn \<Rightarrow> pystr \<Rightarrow> pystr list \<Rightarrow> pystr option \<Rightarrow> 't \<Rightarrow> (pystr \<rightharpoonup> pystr) option
     \<Rightarrow> int \<Rightarrow> py_exc + hdc_result" where
  "hdc_run os spawn executable args device timeout env max_output_lines =
     (let cmd = hdc_command executable device args
      in case spawn cmd None timeout (final_env os env) of
           Completed out err rc \<Rightarrow>
             Inr \<lparr>command = cmd,
                  stdout = Text (truncate_output out max_output_lines),
                  stderr = Text (truncate_output err max_output_lines),
                  returncode = rc, timed_out = False\<rparr>
         | TimeoutExpired out err \<Rightarrow>
             (case truncate_output_any (or_else out []) max_output_lines of
                Inl exc \<Rightarrow> Inl exc
              | Inr so \<Rightarrow>
                  (case truncate_output_any (or_else err (lit ''timeout waiting for hdc''))
                          max_output_lines of
                     Inl exc \<Rightarrow> Inl exc
                   | Inr se \<Rightarrow>
                       Inr \<lparr>command = cmd, stdout = so, stderr = se,
                            returncode = - 1, timed_out = True\<rparr>))
         | FileNotFoundError \<Rightarrow>
             Inl (RuntimeError (lit ''Unable to execute '' @ [39] @ executable @ [39]
                                  @ lit ''. Ensure hdc is installed and on PATH.''))
         | OtherException e \<Rightarrow> Inl e)"

text \<open>
  \<open>HvigorRunner.run\<close>: the project directory is expanded, which can raise, and checked
  before anything is spawned.
\<close>

definition hvigor_run ::
  "os_env \<Rightarrow> 't spawn \<Rightarrow> pystr \<Rightarrow> pystr list \<Rightarrow> pystr \<Rightarrow> 't \<Rightarrow> (pystr \<rightharpoonup> pystr) option
     \<Rightarrow> int \<Rightarrow> py_exc + hvigor_result" where
  "hvigor_run os spawn executable args project_dir timeout env max_output_lines =
     (case expanduser os (expandvars os project_dir) of
        Inl exc \<Rightarrow> Inl exc
      | Inr resolved_project_dir \<Rightarrow>
          if project_dir = [] then
            Inl (ValueError (lit ''project_dir is required for hvigor builds''))
          else if \<not> isdir os resolved_project_dir then
            Inl (ValueError (lit ''project_dir '' @ [39] @ project_dir @ [39]
                               @ lit '' does not exist or is not a directory''))
          else
            let cmd = [executable] @ args
            in case spawn cmd (Some resolved_project_dir) timeout (final_env os env) of
                 Completed out err rc \<Rightarrow>
                   Inr \<lparr>command = cmd,
                        stdout = Text (truncate_output out max_output_lines),
                        stderr = Text (truncate_output err max_output_lines),
                        returncode = rc, timed_out = False,
                        cwd = resolved_project_dir\<rparr>
               | TimeoutExpired out err \<Rightarrow>
                   (case truncate_output_any (or_else out []) max_output_lines of
                      Inl exc \<Rightarrow> Inl exc
                    | Inr so \<Rightarrow>
                        (case truncate_output_any
                                (or_else err (lit ''timeout waiting for hvigorw''))
                                max_output_lines of
                           Inl exc \<Rightarrow> Inl exc
                         | Inr se \<Rightarrow>
                             Inr \<lparr>command = cmd, stdout = so, stderr = se,
                                  returncode = - 1, timed_out = True,
                                  cwd = resolved_project_dir\<rparr>))
               | FileNotFoundError \<Rightarrow>
                   Inl (RuntimeError
                          (lit ''Unable to execute '' @ [39] @ executable @ [39]
                             @ lit ''. Ensure hvigorw exists in the project ''
                             @ lit ''or set HVIGORW_PATH to the wrapper path.''))
               | OtherException e \<Rightarrow> Inl e)"

section \<open>Shell quoting and tokenizing\<close>

text \<open>
  \<open>shlex.quote\<close>: the empty string becomes two single quotes; a string of safe
  characters only (ASCII letters, digits, underscore and \<open>@%+=:,./-\<close>) is returned as
  it is; any other string is put in single quotes, each single quote inside it replaced by
  the five characters quote, double quote, quote, double quote, quote.
\<close>

definition is_safe_char :: "nat \<Rightarrow> bool" where
  "is_safe_char c \<longleftrightarrow>
     (48 \<le> c \<and> c \<le> 57) \<or> (65 \<le> c \<and> c \<le> 90) \<or> (97 \<le> c \<and> c \<le> 122) \<or> c = 95
     \<or> c \<in> {64, 37, 43, 61, 58, 44, 46, 47, 45}"

definition replace_quotes :: "pystr \<Rightarrow> pystr" where
  "replace_quotes s = concat (map (\<lambda>c. if c = 39 then [39, 34, 39, 34, 39] else [c]) s)"

definition shlex_quote :: "pystr \<Rightarrow> pystr" where
  "shlex_quote s =
     (if s = [] then [39, 39]
      else if list_all is_safe_char s then s
      else [39] @ replace_quotes s @ [39])"

text \<open>
  \<open>HdcResult.command_line\<close> and \<open>HvigorResult.command_line\<close>, a property of the
  result of either kind: each part of its command quoted, the parts joined with one space.
\<close>

definition command_line :: "'a hdc_result_scheme \<Rightarrow> pystr" where
  "command_line r = join [32] (map shlex_quote (command r))"

text \<open>
  \<open>shlex.split(s)\<close> runs the lexer in POSIX mode with \<open>whitespace_split\<close> set and no
  comment characters, and collects its tokens up to the end of input. The lexer reads one
  character at a time in one of four states: between tokens (Python's state \<open>' '\<close>), in
  a word (\<open>'a'\<close>), inside quotes (the state is the quote character) and after a
  backslash (the state is the backslash); \<open>escapedstate\<close> is the state to return to
  after the escaped character. With \<open>whitespace_split\<close> every character that is not
  whitespace, a quote or the backslash continues the word.

  \<open>shlex_run state escapedstate token quoted input\<close> is the loop of \<open>read_token\<close> and
  the iteration over the tokens in one: where \<open>read_token\<close> breaks with a token, the
  token is emitted and the next call starts with an empty token, \<open>quoted\<close> false and
  \<open>escapedstate\<close> reset, in the state the lexer was left in. A token is \<open>None\<close>, which
  ends the iteration, only when it is empty and not quoted, and that happens only at the
  end of input. End of input inside quotes or after a backslash raises \<open>ValueError\<close>.
\<close>

datatype lex_state = SP | In_Word | In_Quote nat | In_Escape

definition whitespace :: "nat set" where
  "whitespace = {32, 9, 13, 10}"

definition quotes :: "nat set" where
  "quotes = {39, 34}"

fun emit :: "pystr \<Rightarrow> py_exc + pystr list \<Rightarrow> py_exc + pystr list" where
  "emit tok (Inl e) = Inl e"
| "emit tok (Inr toks) = Inr (tok # toks)"

fun shlex_run :: "lex_state \<Rightarrow> lex_state \<Rightarrow> pystr \<Rightarrow> bool \<Rightarrow> pystr \<Rightarrow> py_exc + pystr list" where
  "shlex_run SP esc tok q [] = Inr (if tok \<noteq> [] \<or> q then [tok] else [])"
| "shlex_run In_Word esc tok q [] = Inr (if tok \<noteq> [] \<or> q then [tok] else [])"
| "shlex_run (In_Quote qc) esc tok q [] = Inl (ValueError (lit ''No closing quotation''))"
| "shlex_run In_Escape esc tok q [] = Inl (ValueError (lit ''No escaped character''))"
| "shlex_run SP esc tok q (c # cs) =
     (if c \<in> whitespace then
        (if tok \<noteq> [] \<or> q then emit tok (shlex_run SP SP [] False cs)
         else shlex_run SP esc tok q cs)
      else if c = 92 then shlex_run In_Escape In_Word tok q cs
      else if c \<in> quotes then shlex_run (In_Quote c) esc tok q cs
      else shlex_run In_Word esc [c] q cs)"
| "shlex_run (In_Quote qc) esc tok q (c # cs) =
     (if c = qc then shlex_run In_Word esc tok True cs
      else if c = 92 \<and> qc = 34 then shlex_run In_Escape (In_Quote qc) tok True cs
      else shlex_run (In_Quote qc) esc (tok @ [c]) True cs)"
| "shlex_run In_Escape esc tok q (c # cs) =
     (let tok' = (case esc of
                    In_Quote qc \<Rightarrow> if c \<noteq> 92 \<and> c \<noteq> qc then tok @ [92] else tok
                  | _ \<Rightarrow> tok)
      in shlex_run esc esc (tok' @ [c]) q cs)"
| "shlex_run In_Word esc tok q (c # cs) =
     (if c \<in> whitespace then
        (if tok \<noteq> [] \<or> q then emit tok (shlex_run SP SP [] False cs)
         else shlex_run SP esc tok q cs)
      else if c \<in> quotes then shlex_run (In_Quote c) esc tok q cs
      else if c = 92 then shlex_run In_Escape In_Word tok q cs
      else shlex_run In_Word esc (tok @ [c]) q cs)"

definition shlex_split :: "pystr \<Rightarrow> py_exc + pystr list" where
  "shlex_split s = shlex_run SP SP [] False s"

text \<open>
  \<open>split_arguments\<close> of \<open>service_bootstrap.py\<close>: a \<open>ValueError\<close> of the lexer is
  raised again as \<open>InvalidArgumentsError\<close> with the text \<open>str(exc)\<close> gives.
\<close>

definition split_arguments :: "pystr \<Rightarrow> py_exc + pystr list" where
  "split_arguments arguments =
     (case shlex_split arguments of
        Inr toks \<Rightarrow> Inr toks
      | Inl exc \<Rightarrow>
          if isinstance exc (lit ''ValueError'') then
            (case exc_str exc of
               Inl exc' \<Rightarrow> Inl exc'
             | Inr msg \<Rightarrow> Inl (InvalidArgumentsError msg))
          else Inl exc)"

section \<open>The call-instrumentation wrapper\<close>

text \<open>
  The values an operation takes and returns, as far as the wrapper looks into them.
\<close>

datatype pyval =
    PNone
  | PBool bool
  | PInt int
  | PStr pystr
  | PList "pyval list"
  | PDict "(pystr \<times> pyval) list"

fun truthy :: "pyval \<Rightarrow> bool" where
  "truthy PNone = False"
| "truthy (PBool b) = b"
| "truthy (PInt i) = (i \<noteq> 0)"
| "truthy (PStr s) = (s \<noteq> [])"
| "truthy (PList xs) = (xs \<noteq> [])"
| "truthy (PDict kvs) = (kvs \<noteq> [])"

text \<open>\<open>v == 0\<close>: true of the integer zero and of \<open>False\<close>.\<close>

fun equals_zero :: "pyval \<Rightarrow> bool" where
  "equals_zero (PInt i) = (i = 0)"
| "equals_zero (PBool b) = (\<not> b)"
| "equals_zero _ = False"

text \<open>
  What the wrapper reads from outside: the request id, the clock (as the elapsed
  milliseconds it computes), the path of the log file and the text
  \<open>traceback.format_exc()\<close> gives for the exception being handled.
\<close>

record wrapper_env =
  request_id :: pystr
  duration_ms :: int
  log_file_path :: pystr
  format_exc :: "py_exc \<Rightarrow> pystr"

text \<open>
  \<open>_format_tool_exception\<close>: the payload returned in place of a raised exception. The
  dict is built entry by entry; \<open>str(exc)\<close> is the one entry that can raise, and what
  it raises leaves the function.
\<close>

definition format_tool_exception :: "wrapper_env \<Rightarrow> pystr \<Rightarrow> py_exc \<Rightarrow> py_exc + pyval" where
  "format_tool_exception env tool_name exc =
     (case exc_str exc of
        Inl exc' \<Rightarrow> Inl exc'
      | Inr msg \<Rightarrow>
          Inr (PDict [(lit ''success'', PBool False),
                      (lit ''error'', PStr msg),
                      (lit ''error_type'', PStr (exc_class exc)),
                      (lit ''tool'', PStr tool_name),
                      (lit ''log_file'', PStr (log_file_path env)),
                      (lit ''traceback'', PStr (format_exc env exc))]))"

text \<open>
  The log is a list of events, one for each call to the logger, each with its level and
  the values the call is given; the wording of the messages is not modelled.
\<close>

datatype log_level = INFO | WARNING | ERROR

datatype status = Status_success pyval | Status_returncode pyval | Status_completed

datatype log_event =
    Separator
  | Received pystr pystr
  | Params_header pystr
  | Param_long pystr pystr pystr nat
  | Param pystr pystr pyval
  | No_params pystr
  | Starting pystr
  | Exception_in pystr pystr
  | Elapsed pystr int
  | Params_of pystr "(pystr \<times> pyval) list"
  | Exception_detail pystr py_exc
  | Succeeded pystr pystr status int
  | Failed pystr pystr status int
  | Failed_params pystr "(pystr \<times> pyval) list"
  | Error_field pystr pyval

type_synonym log = "(log_level \<times> log_event) list"

text \<open>The entries of \<open>kwargs\<close> other than \<open>ctx\<close>, and the events logged for them.\<close>

definition log_kwargs_of :: "(pystr \<times> pyval) list \<Rightarrow> (pystr \<times> pyval) list" where
  "log_kwargs_of kwargs = filter (\<lambda>(k, v). k \<noteq> lit ''ctx'') kwargs"

fun log_param :: "pystr \<Rightarrow> pystr \<times> pyval \<Rightarrow> log_level \<times> log_event" where
  "log_param rid (key, PStr s) =
     (if length s > 200 then (INFO, Param_long rid key (take 200 s) (length s))
      else (INFO, Param rid key (PStr s)))"
| "log_param rid (key, v) = (INFO, Param rid key v)"

definition log_call :: "pystr \<Rightarrow> pystr \<Rightarrow> (pystr \<times> pyval) list \<Rightarrow> log" where
  "log_call rid name kwargs =
     [(INFO, Separator), (INFO, Received rid name)]
     @ (let log_kwargs = log_kwargs_of kwargs
        in if log_kwargs \<noteq> [] then (INFO, Params_header rid) # map (log_param rid) log_kwargs
           else [(INFO, No_params rid)])
     @ [(INFO, Starting rid)]"

text \<open>
  The classification of a normal result: the \<open>success\<close> entry of a dict if it has one,
  else whether its \<open>returncode\<close> entry equals zero, else success. The status is kept
  as the entry its text is formatted from.
\<close>

definition classify :: "pyval \<Rightarrow> status \<times> bool" where
  "classify result =
     (case result of
        PDict kvs \<Rightarrow>
          (case map_of kvs (lit ''success'') of
             Some success \<Rightarrow> (Status_success success, truthy success)
           | None \<Rightarrow>
               (case map_of kvs (lit ''returncode'') of
                  Some rc \<Rightarrow> (Status_returncode rc, equals_zero rc)
                | None \<Rightarrow> (Status_completed, True)))
      | _ \<Rightarrow> (Status_completed, True))"

text \<open>
  \<open>wrapped\<close>, the function \<open>_safe_tool\<close> registers in place of the operation
  \<open>func\<close>. The operation is a function of its positional and keyword arguments that
  returns a value or raises. \<open>except Exception\<close> catches an exception exactly when its
  class derives from \<open>Exception\<close>; any other one leaves \<open>wrapped\<close> as it came.
  In the handler the calls to the logger are under a \<open>try\<close> of their own;
  \<open>_format_tool_exception\<close> is called after it, so what that call raises leaves
  \<open>wrapped\<close>. The result is the log written and what \<open>wrapped\<close> returns or raises.
\<close>

definition wrapped ::
  "wrapper_env \<Rightarrow> pystr \<Rightarrow> (pyval list \<Rightarrow> (pystr \<times> pyval) list \<Rightarrow> py_exc + pyval)
     \<Rightarrow> pyval list \<Rightarrow> (pystr \<times> pyval) list \<Rightarrow> log \<times> (py_exc + pyval)" where
  "wrapped env name func args kwargs =
     (let rid = request_id env;
          log_kwargs = log_kwargs_of kwargs;
          entry = log_call rid name kwargs
      in case func args kwargs of
           Inl exc \<Rightarrow>
             if isinstance exc (lit ''Exception'') then
               (entry @ [(ERROR, Separator),
                         (ERROR, Exception_in rid name),
                         (ERROR, Elapsed rid (duration_ms env)),
                         (ERROR, Params_of rid log_kwargs),
                         (ERROR, Exception_detail rid exc),
                         (ERROR, Separator)],
                format_tool_exception env name exc)
             else (entry, Inl exc)
         | Inr result \<Rightarrow>
             (let (status, success) = classify result
              in (entry
                  @ (if success then [(INFO, Succeeded rid name status (duration_ms env))]
                     else [(WARNING, Failed rid name status (duration_ms env)),
                           (WARNING, Failed_params rid log_kwargs)]
                          @ (case result of
                               PDict kvs \<Rightarrow>
                                 (case map_of kvs (lit ''error'') of
                                    Some err \<Rightarrow> [(WARNING, Error_field rid err)]
                                  | None \<Rightarrow> [])
                             | _ \<Rightarrow> []))
                  @ [(INFO, Separator)],
                  Inr result)))"

section \<open>Example inputs\<close>

text \<open>
  A file system with a project directory \<open>/proj\<close> and an SDK directory \<open>/sdk\<close> whose
  only tool is \<open>/sdk/bin/hdc.exe\<close>; paths are expanded to themselves and the
  environment is empty.
\<close>

definition example_os :: os_env where
  "example_os =
     \<lparr>expandvars = (\<lambda>p. p), expanduser = (\<lambda>p. Inr p),
      path_kind = (\<lambda>p. if p = lit ''/proj'' \<or> p = lit ''/sdk'' \<or> p = lit ''/sdk/bin''
                         then Some Directory
                         else if p = lit ''/sdk/bin/hdc.exe'' then Some RegularFile
                         else None),
      environ = Map.empty\<rparr>"

text \<open>
  A spawn that always runs into the timeout, with some partial standard output as text.
\<close>

definition timeout_spawn :: "nat spawn" where
  "timeout_spawn cmd dir timeout env = TimeoutExpired (Some (Text (lit ''partial''))) None"

text \<open>A spawn that never finds the executable.\<close>

definition missing_spawn :: "nat spawn" where
  "missing_spawn cmd dir timeout env = FileNotFoundError"

definition example_env :: wrapper_env where
  "example_env =
     \<lparr>request_id = lit ''1a2b3c4d'', duration_ms = 7,
      log_file_path = lit ''/tmp/harmony-tools.log'',
      format_exc = (\<lambda>exc. lit ''Traceback (most recent call last): '' @ exc_class exc)\<rparr>"

text \<open>
  \<open>KeyboardInterrupt\<close> derives from \<open>BaseException\<close> directly, not from
  \<open>Exception\<close>.
\<close>

definition KeyboardInterrupt :: py_exc where
  "KeyboardInterrupt =
     PyExc (lit ''KeyboardInterrupt'') [lit ''BaseException'', lit ''object''] (Inr [])"

text \<open>\<open>SystemExit(1)\<close>, of the same kind.\<close>

definition SystemExit :: py_exc where
  "SystemExit = PyExc (lit ''SystemExit'') [lit ''BaseException'', lit ''object''] (Inr (lit ''1''))"


text \<open>
  A spawn that runs into the timeout on POSIX after three lines of output: the partial
  output is bytes.
\<close>

definition three_lines :: "nat list" where
  "three_lines = lit ''a'' @ [LF] @ lit ''b'' @ [LF] @ lit ''c''"

definition bytes_timeout_spawn :: "nat spawn" where
  "bytes_timeout_spawn cmd dir timeout env = TimeoutExpired (Some (Bytes three_lines)) None"

section \<open>Lines of a string\<close>

lemma splitlines_Nil: "splitlines [] = []"
  by (simp add: splitlines.simps)

lemma splitlines_Cons:
  "splitlines (c # cs) =
     takeWhile (\<lambda>c. \<not> is_linebreak c) (c # cs)
     # splitlines (skip_break (dropWhile (\<lambda>c. \<not> is_linebreak c) (c # cs)))"
  by (subst splitlines.simps) simp

lemma splitlines_eq_Nil: "splitlines s = [] \<longleftrightarrow> s = []"
  by (cases s) (simp_all add: splitlines_Nil splitlines_Cons)

lemma splitlines_no_break:
  "l \<in> set (splitlines s) \<Longrightarrow> c \<in> set l \<Longrightarrow> \<not> is_linebreak c"
proof (induction s arbitrary: l rule: splitlines.induct)
  case (1 s)
  show ?case
  proof (cases "s = []")
    case True
    with "1.prems" show ?thesis by (simp add: splitlines_Nil)
  next
    case False
    from "1.prems"(1) False
    consider "l = takeWhile (\<lambda>c. \<not> is_linebreak c) s"
      | "l \<in> set (splitlines (skip_break (dropWhile (\<lambda>c. \<not> is_linebreak c) s)))"
      by (subst (asm) splitlines.simps) auto
    then show ?thesis
    proof cases
      case 1
      with "1.prems"(2) show ?thesis by (auto dest: set_takeWhileD)
    next
      case 2
      with "1.IH" False "1.prems"(2) show ?thesis by blast
    qed
  qed
qed

lemma skip_break_LF: "skip_break (LF # rest) = rest"
  by (cases rest) (simp_all add: LF_def CR_def)

lemma is_linebreak_LF: "is_linebreak LF"
  by (simp add: is_linebreak_def LF_def)

lemma splitlines_line_LF:
  assumes "\<forall>c\<in>set l. \<not> is_linebreak c"
  shows "splitlines (l @ LF # rest) = l # splitlines rest"
proof -
  have t: "takeWhile (\<lambda>c. \<not> is_linebreak c) (l @ LF # rest) = l"
    using assms by (simp add: takeWhile_append2 is_linebreak_LF)
  have d: "dropWhile (\<lambda>c. \<not> is_linebreak c) (l @ LF # rest) = LF # rest"
    using assms by (simp add: dropWhile_append2 is_linebreak_LF)
  show ?thesis
    by (subst splitlines.simps) (simp add: t d skip_break_LF)
qed

lemma splitlines_single:
  assumes "\<forall>c\<in>set l. \<not> is_linebreak c" and "l \<noteq> []"
  shows "splitlines l = [l]"
proof -
  have t: "takeWhile (\<lambda>c. \<not> is_linebreak c) l = l"
    using assms(1) by (simp add: takeWhile_eq_all_conv)
  have d: "dropWhile (\<lambda>c. \<not> is_linebreak c) l = []"
    using assms(1) by simp
  show ?thesis
    using assms(2) by (subst splitlines.simps) (simp add: t d splitlines_Nil)
qed

lemma splitlines_join:
  assumes "\<forall>l\<in>set ls. \<forall>c\<in>set l. \<not> is_linebreak c"
  shows "splitlines (join [LF] ls) = (if ls = [] then [] else if last ls = [] then butlast ls else ls)"
  using assms
proof (induction "[LF]" ls rule: join.induct)
  case 1
  show ?case by (simp add: splitlines_Nil)
next
  case (2 x)
  then show ?case by (simp add: splitlines_Nil splitlines_single)
next
  case (3 x y ys)
  then show ?case by (simp add: splitlines_line_LF)
qed

lemma str_nat_digits: "c \<in> set (str_nat n) \<Longrightarrow> 48 \<le> c \<and> c \<le> 57"
proof (induction n rule: str_nat.induct)
  case (1 n)
  show ?case
  proof (cases "n < 10")
    case True
    with "1.prems" show ?thesis by (subst (asm) str_nat.simps) auto
  next
    case False
    with "1.prems" have "c \<in> set (str_nat (n div 10)) \<or> c = 48 + n mod 10"
      by (subst (asm) str_nat.simps) auto
    then show ?thesis
    proof
      assume "c \<in> set (str_nat (n div 10))"
      with "1.IH" False show ?thesis by blast
    next
      assume "c = 48 + n mod 10"
      moreover have "n mod 10 < 10" by simp
      ultimately show ?thesis by linarith
    qed
  qed
qed

lemma notice_no_break: "c \<in> set (truncation_notice m n) \<Longrightarrow> \<not> is_linebreak c"
proof -
  assume c: "c \<in> set (truncation_notice m n)"
  have d: "\<And>k. c \<in> set (str_nat k) \<Longrightarrow> \<not> is_linebreak c"
    using str_nat_digits by (fastforce simp: is_linebreak_def)
  from c consider "c \<in> set (lit ''[Output truncated: showing last '')"
    | "c \<in> set (str_int m)" | "c \<in> set (lit '' of '')" | "c \<in> set (str_nat n)"
    | "c \<in> set (lit '' lines]'')"
    by (auto simp: truncation_notice_def)
  then show ?thesis
  proof cases
    case 1 then show ?thesis by (auto simp: lit_def is_linebreak_def)
  next
    case 2 then show ?thesis using d by (auto simp: str_int_def is_linebreak_def split: if_splits)
  next
    case 3 then show ?thesis by (auto simp: lit_def is_linebreak_def)
  next
    case 4 then show ?thesis using d by blast
  next
    case 5 then show ?thesis by (auto simp: lit_def is_linebreak_def)
  qed
qed

section \<open>The truncator above its bound\<close>

lemma slice_from_neg: "0 < m \<Longrightarrow> slice_from (- m) xs = drop (length xs - nat m) xs"
  by (auto simp: slice_from_def Let_def max_def nat_diff_distrib')

lemma slice_from_zero: "slice_from 0 xs = xs"
  by (simp add: slice_from_def)

lemma truncate_output_over:
  assumes "output \<noteq> []" and "m < int (length (splitlines output))"
  shows "truncate_output output m =
           truncation_notice m (length (splitlines output)) @ [LF]
             @ join [LF] (slice_from (- m) (splitlines output))"
  using assms by (simp add: truncate_output_def Let_def)

lemma splitlines_join_length:
  assumes "\<forall>l\<in>set ls. \<forall>c\<in>set l. \<not> is_linebreak c"
  shows "length (splitlines (join [LF] ls)) \<le> length ls"
  by (simp add: splitlines_join [OF assms])

lemma truncate_output_keeps_last:
  assumes "0 < m" and "m < int (length (splitlines s))"
  shows "truncate_output s m =
           truncation_notice m (length (splitlines s)) @ [LF]
             @ join [LF] (drop (length (splitlines s) - nat m) (splitlines s))"
    and "length (drop (length (splitlines s) - nat m) (splitlines s)) = nat m"
    and "length (splitlines (truncate_output s m)) \<le> nat m + 1"
proof -
  let ?ls = "splitlines s"
  let ?kept = "drop (length ?ls - nat m) ?ls"
  from assms have ne: "s \<noteq> []"
    by (auto simp: splitlines_Nil)
  show eq: "truncate_output s m = truncation_notice m (length ?ls) @ [LF] @ join [LF] ?kept"
    using truncate_output_over [OF ne assms(2)] assms(1) by (simp add: slice_from_neg)
  show len: "length ?kept = nat m"
    using assms by simp
  have nb: "\<forall>l\<in>set ?kept. \<forall>c\<in>set l. \<not> is_linebreak c"
    using splitlines_no_break by (meson in_set_dropD)
  have sl: "splitlines (truncate_output s m)
              = truncation_notice m (length ?ls) # splitlines (join [LF] ?kept)"
    using notice_no_break by (simp add: eq splitlines_line_LF)
  have "length (splitlines (truncate_output s m)) = Suc (length (splitlines (join [LF] ?kept)))"
    by (subst sl) (rule length_Cons)
  then show "length (splitlines (truncate_output s m)) \<le> nat m + 1"
    using splitlines_join_length [OF nb] len by linarith
qed

lemmas eval_simps = truncate_output_def Let_def splitlines_Nil splitlines_Cons is_linebreak_def
  LF_def CR_def slice_from_def truncation_notice_def str_int_def lit_def

lemma str_nat_small: "n < 10 \<Longrightarrow> str_nat n = [48 + n]"
  by (subst str_nat.simps) simp

lemma str_nat_large: "\<not> n < 10 \<Longrightarrow> str_nat n = str_nat (n div 10) @ [48 + n mod 10]"
  by (subst str_nat.simps) simp

section \<open>Properties of the truncator\<close>

lemma truncate_output_within:
  "int (length (splitlines output)) \<le> m \<Longrightarrow> truncate_output output m = output"
  by (simp add: truncate_output_def Let_def)

text \<open>
  C8. An input whose number of lines is at most \<open>max_lines\<close> is returned exactly as
  it is, and so is the empty string at every bound: nothing is normalised.
\<close>

theorem truncate_output_identity:
  "int (length (splitlines output)) \<le> max_lines \<or> output = []
     \<Longrightarrow> truncate_output output max_lines = output"
  by (auto simp: truncate_output_def Let_def)

text \<open>
  At the bound 2 the two-line text \<open>a LF b LF\<close> keeps its final line break, and the
  empty string is returned even at a negative bound.
\<close>

theorem truncate_output_identity_witness:
  "int (length (splitlines (lit ''a'' @ [LF] @ lit ''b'' @ [LF]))) \<le> 2
   \<and> truncate_output (lit ''a'' @ [LF] @ lit ''b'' @ [LF]) 2 = lit ''a'' @ [LF] @ lit ''b'' @ [LF]
   \<and> truncate_output [] (- 1) = []"
proof -
  have h: "int (length (splitlines (lit ''a'' @ [LF] @ lit ''b'' @ [LF]))) \<le> 2"
    by (simp add: eval_simps)
  have "truncate_output (lit ''a'' @ [LF] @ lit ''b'' @ [LF]) 2 = lit ''a'' @ [LF] @ lit ''b'' @ [LF]"
    using h by (intro truncate_output_identity) simp
  moreover have "truncate_output [] (- 1) = []"
    by (rule truncate_output_identity) simp
  ultimately show ?thesis using h by simp
qed

text \<open>
  C1. Above the bound the truncator is to return the notice line and exactly the last
  \<open>max_lines\<close> lines. At every bound of at least 1 it does
  (\<open>truncate_output_keeps_last\<close>). At the bound 0 the slice \<open>lines[-0:]\<close> is
  \<open>lines[0:]\<close>, the whole list: for the two-line input \<open>a LF b\<close> the code returns
  the notice followed by both lines, three lines in all, where the claim has no content
  line and at most one line.
\<close>

theorem truncate_output_zero_keeps_all_lines:
  "truncate_output (lit ''a'' @ [LF] @ lit ''b'') 0
     = lit ''[Output truncated: showing last 0 of 2 lines]'' @ [LF] @ lit ''a'' @ [LF] @ lit ''b''
   \<and> length (splitlines (truncate_output (lit ''a'' @ [LF] @ lit ''b'') 0)) = 3"
  by (simp add: eval_simps str_nat_small)

text \<open>
  C9. At the bound 0, for every input that is not empty, the truncator returns the notice
  ``showing last 0 of L lines'', a line break, and all \<open>L\<close> lines of the input joined by
  line breaks: the slice \<open>lines[-0:]\<close> is the whole list, and \<open>L\<close> is at least 1.
\<close>

theorem truncate_output_bound_zero:
  "output \<noteq> [] \<Longrightarrow>
     truncate_output output 0
       = lit ''[Output truncated: showing last 0 of '' @ str_nat (length (splitlines output))
           @ lit '' lines]'' @ [LF] @ join [LF] (splitlines output)
     \<and> slice_from (- 0) (splitlines output) = splitlines output
     \<and> 0 < length (splitlines output)"
  by (simp add: truncate_output_def Let_def slice_from_zero splitlines_eq_Nil
      truncation_notice_def str_int_def str_nat_small lit_def)

theorem truncate_output_bound_zero_witness:
  "lit ''x'' @ [LF] @ lit ''y'' @ [LF] @ lit ''z'' \<noteq> []
   \<and> truncate_output (lit ''x'' @ [LF] @ lit ''y'' @ [LF] @ lit ''z'') 0
       = lit ''[Output truncated: showing last 0 of 3 lines]'' @ [LF]
           @ lit ''x'' @ [LF] @ lit ''y'' @ [LF] @ lit ''z''"
proof -
  have h: "lit ''x'' @ [LF] @ lit ''y'' @ [LF] @ lit ''z'' \<noteq> []"
    by (simp add: lit_def)
  have l: "splitlines (lit ''x'' @ [LF] @ lit ''y'' @ [LF] @ lit ''z'') = [lit ''x'', lit ''y'', lit ''z'']"
    by (simp add: eval_simps)
  show ?thesis
    using truncate_output_bound_zero [OF h, unfolded l] h
    by (simp add: str_nat_small lit_def)
qed

text \<open>
  C5 as stated fails: the three-line input \<open>a LF b LF c\<close> at the bound 1 gives the
  notice ``1 of 3 lines'' and \<open>c\<close>; that text has two lines, so a second application
  truncates again and the notice becomes ``1 of 2 lines''.
\<close>

theorem truncate_output_not_idempotent:
  "truncate_output (truncate_output (lit ''a'' @ [LF] @ lit ''b'' @ [LF] @ lit ''c'') 1) 1
     \<noteq> truncate_output (lit ''a'' @ [LF] @ lit ''b'' @ [LF] @ lit ''c'') 1"
proof -
  have 1: "truncate_output (lit ''a'' @ [LF] @ lit ''b'' @ [LF] @ lit ''c'') 1
             = lit ''[Output truncated: showing last 1 of 3 lines]'' @ [LF] @ lit ''c''"
    by (simp add: eval_simps str_nat_small)
  have 2: "truncate_output (lit ''[Output truncated: showing last 1 of 3 lines]'' @ [LF] @ lit ''c'') 1
             = lit ''[Output truncated: showing last 1 of 2 lines]'' @ [LF] @ lit ''c''"
    by (simp add: eval_simps str_nat_small)
  show ?thesis
    unfolding 1 2 by (simp add: lit_def)
qed

text \<open>
  C5, amended. For every bound of at least 1, a second application with the same bound
  returns the first result unchanged when the input has at most that many lines or its
  last line is empty; otherwise it keeps the same last \<open>n\<close> lines and only restates the
  total in the notice as \<open>n + 1\<close>, the notice line being counted as a line.
\<close>

theorem truncate_output_twice:
  assumes "1 \<le> n"
  shows "truncate_output (truncate_output s n) n =
           (if int (length (splitlines s)) \<le> n \<or> last (splitlines s) = []
            then truncate_output s n
            else truncation_notice n (nat n + 1) @ [LF]
                   @ join [LF] (slice_from (- n) (splitlines s)))"
proof (cases "int (length (splitlines s)) \<le> n")
  case True
  then have "truncate_output s n = s"
    by (rule truncate_output_within)
  with True show ?thesis by simp
next
  case False
  let ?ls = "splitlines s"
  let ?kept = "drop (length ?ls - nat n) ?ls"
  let ?N = "truncation_notice n (length ?ls)"
  from assms False have pos: "0 < n" and over: "n < int (length ?ls)"
    by simp_all
  have eq: "truncate_output s n = ?N @ [LF] @ join [LF] ?kept"
    and len: "length ?kept = nat n"
    using truncate_output_keeps_last [OF pos over] by simp_all
  have sf: "slice_from (- n) ?ls = ?kept"
    using pos by (rule slice_from_neg)
  from len pos have kne: "?kept \<noteq> []"
    by auto
  have lastk: "last ?kept = last ?ls"
    using pos over by (intro last_drop) linarith
  have nb: "\<forall>l\<in>set ?kept. \<forall>c\<in>set l. \<not> is_linebreak c"
    using splitlines_no_break by (meson in_set_dropD)
  have sl: "splitlines (truncate_output s n)
              = ?N # (if last ?ls = [] then butlast ?kept else ?kept)"
    using notice_no_break kne
    by (simp add: eq splitlines_line_LF splitlines_join [OF nb] lastk del: drop_eq_Nil)
  show ?thesis
  proof (cases "last ?ls = []")
    case True
    have "length (splitlines (truncate_output s n)) = Suc (length (butlast ?kept))"
      by (subst sl) (simp add: True)
    then have "int (length (splitlines (truncate_output s n))) \<le> n"
      using len kne pos by (simp del: drop_eq_Nil)
    then have "truncate_output (truncate_output s n) n = truncate_output s n"
      by (rule truncate_output_within)
    with True show ?thesis by simp
  next
    case nonempty: False
    have sl': "splitlines (truncate_output s n) = ?N # ?kept"
      by (subst sl) (simp add: nonempty)
    have l2: "length (splitlines (truncate_output s n)) = nat n + 1"
      unfolding sl' length_Cons len by simp
    then have over2: "n < int (length (splitlines (truncate_output s n)))"
      using pos by linarith
    have k2: "drop (nat n + 1 - nat n) (splitlines (truncate_output s n)) = ?kept"
      by (simp add: sl')
    have "truncate_output (truncate_output s n) n
            = truncation_notice n (nat n + 1) @ [LF] @ join [LF] ?kept"
      using truncate_output_keeps_last(1) [OF pos over2] by (simp only: l2 k2)
    with False nonempty sf show ?thesis by simp
  qed
qed

theorem truncate_output_twice_witness:
  "(1::int) \<le> 1
   \<and> truncate_output (truncate_output (lit ''a'' @ [LF] @ lit ''b'' @ [LF] @ lit ''c'') 1) 1
       = lit ''[Output truncated: showing last 1 of 2 lines]'' @ [LF] @ lit ''c''"
proof -
  have h: "(1::int) \<le> 1" by simp
  have l: "splitlines (lit ''a'' @ [LF] @ lit ''b'' @ [LF] @ lit ''c'') = [lit ''a'', lit ''b'', lit ''c'']"
    by (simp add: eval_simps)
  show ?thesis
    using truncate_output_twice [OF h, of "lit ''a'' @ [LF] @ lit ''b'' @ [LF] @ lit ''c''", unfolded l]
    by (simp add: slice_from_def truncation_notice_def str_int_def str_nat_small lit_def)
qed

section \<open>The invokers on a timeout\<close>

lemma bytes_splitlines_Nil: "bytes_splitlines [] = []"
  by (simp add: bytes_splitlines.simps)

lemma bytes_splitlines_Cons:
  "bytes_splitlines (c # cs) =
     takeWhile (\<lambda>c. \<not> is_bytes_linebreak c) (c # cs)
     # bytes_splitlines (skip_break (dropWhile (\<lambda>c. \<not> is_bytes_linebreak c) (c # cs)))"
  by (subst bytes_splitlines.simps) simp

text \<open>
  Three lines of bytes at the bound 2: the join of the two kept lines raises.
\<close>

lemma bytes_truncation_raises:
  "truncate_output_any (Bytes three_lines) 2
     = Inl (TypeError (lit ''sequence item 0: expected str instance, bytes found''))"
  by (simp add: truncate_output_any_def Let_def bytes_splitlines_Nil bytes_splitlines_Cons
      is_bytes_linebreak_def slice_from_def three_lines_def lit_def LF_def CR_def)

text \<open>
  Whatever result either \<open>run\<close> returns, if its \<open>timed_out\<close> is true its exit code
  is -1.
\<close>

lemma run_timed_out_returncode:
  "hdc_run os spawn executable args device timeout env m = Inr r \<Longrightarrow> timed_out r
     \<Longrightarrow> returncode r = - 1"
  "hvigor_run os spawn executable args project_dir timeout env m = Inr r' \<Longrightarrow> timed_out r'
     \<Longrightarrow> returncode r' = - 1"
  by (auto simp: hdc_run_def hvigor_run_def Let_def
      split: spawn_result.splits sum.splits if_splits)

text \<open>
  When the partial output is text or absent, as on Windows, \<open>HdcRunner.run\<close> returns
  the result of a timeout.
\<close>

lemma run_timeout_text:
  assumes "out = None \<or> (\<exists>s. out = Some (Text s))" and "err = None \<or> (\<exists>s. err = Some (Text s))"
    and "spawn (hdc_command executable device args) None timeout (final_env os env)
           = TimeoutExpired out err"
  shows "\<exists>so se. hdc_run os spawn executable args device timeout env m =
           Inr \<lparr>command = hdc_command executable device args, stdout = Text so, stderr = Text se,
                returncode = - 1, timed_out = True\<rparr>"
  using assms by (auto simp: hdc_run_def Let_def or_else_def truncate_output_any_def)

text \<open>
  And so does \<open>HvigorRunner.run\<close>, for a project directory that is given, whose
  expansion returns, and that exists.
\<close>

lemma hvigor_run_timeout_text:
  assumes "out = None \<or> (\<exists>s. out = Some (Text s))" and "err = None \<or> (\<exists>s. err = Some (Text s))"
    and "project_dir \<noteq> []" and "expanduser os (expandvars os project_dir) = Inr resolved"
    and "isdir os resolved"
    and "spawn ([executable] @ args) (Some resolved) timeout (final_env os env)
           = TimeoutExpired out err"
  shows "\<exists>so se. hvigor_run os spawn executable args project_dir timeout env m =
           Inr \<lparr>command = [executable] @ args, stdout = Text so, stderr = Text se,
                returncode = - 1, timed_out = True, cwd = resolved\<rparr>"
  using assms by (auto simp: hvigor_run_def Let_def or_else_def truncate_output_any_def)

text \<open>
  C2. On a timeout \<open>run\<close> is to return a result with the exit code -1, \<open>timed_out\<close>
  true and the truncated partial output, and not to raise. The handlers of both runners
  are written for that, on the premise that the partial output is text. On POSIX it is
  bytes: with the three lines \<open>a\<close>, \<open>b\<close>, \<open>c\<close> read before the timeout and the bound
  2, the truncation inside the handler raises \<open>TypeError\<close>, and \<open>run\<close> of either
  runner raises it instead of returning a result.
\<close>

theorem run_timeout_bytes_raises:
  "hdc_run example_os bytes_timeout_spawn (lit ''hdc'') [lit ''shell'', lit ''ls''] None 120 None 2
     = Inl (TypeError (lit ''sequence item 0: expected str instance, bytes found''))
   \<and> hvigor_run example_os bytes_timeout_spawn (lit ''./hvigorw'') [lit ''clean''] (lit ''/proj'')
       900 None 2
     = Inl (TypeError (lit ''sequence item 0: expected str instance, bytes found''))"
proof -
  have o: "or_else (Some (Bytes three_lines)) []
             = Bytes three_lines"
    by (simp add: or_else_def three_lines_def lit_def)
  have dir: "isdir example_os (lit ''/proj'')" "lit ''/proj'' \<noteq> []"
    by (simp_all add: isdir_def example_os_def lit_def)
  have e: "expanduser example_os (expandvars example_os (lit ''/proj'')) = Inr (lit ''/proj'')"
    by (simp add: example_os_def)
  have 1: "hdc_run example_os bytes_timeout_spawn (lit ''hdc'') [lit ''shell'', lit ''ls''] None 120 None 2
     = Inl (TypeError (lit ''sequence item 0: expected str instance, bytes found''))"
    by (simp add: hdc_run_def Let_def bytes_timeout_spawn_def o bytes_truncation_raises)
  have 2: "hvigor_run example_os bytes_timeout_spawn (lit ''./hvigorw'') [lit ''clean''] (lit ''/proj'')
       900 None 2
     = Inl (TypeError (lit ''sequence item 0: expected str instance, bytes found''))"
    by (simp add: hvigor_run_def Let_def e dir bytes_timeout_spawn_def o bytes_truncation_raises)
  show ?thesis using 1 2 by (rule conjI)
qed

section \<open>The invokers when the executable is missing, and the wrapper around an operation\<close>

text \<open>
  What \<open>RuntimeError\<close> is: a class that derives from \<open>Exception\<close> and not from
  \<open>OSError\<close>, of which \<open>EnvironmentError\<close> is the other name.
\<close>

lemma RuntimeError_class:
  "exc_class (RuntimeError msg) = lit ''RuntimeError''"
  "exc_str (RuntimeError msg) = Inr msg"
  "isinstance (RuntimeError msg) (lit ''Exception'')"
  "\<not> isinstance (RuntimeError msg) (lit ''OSError'')"
  "\<not> isinstance (RuntimeError msg) (lit ''EnvironmentError'')"
  by (simp_all add: RuntimeError_def isinstance_def Exception_bases_def lit_def)

text \<open>
  C4 as stated fails: when the executable \<open>hdc\<close> is not found, \<open>HdcRunner.run\<close> raises
  \<open>RuntimeError\<close>, which is not of the class \<open>EnvironmentError\<close> (\<open>OSError\<close>): the
  \<open>FileNotFoundError\<close> of the spawn, which is of that class, is replaced.
\<close>

theorem run_executable_not_found_counterexample:
  "hdc_run example_os missing_spawn (lit ''hdc'') [lit ''list'', lit ''targets''] None 15 None 500
     = Inl (RuntimeError (lit ''Unable to execute '' @ [39] @ lit ''hdc'' @ [39]
                            @ lit ''. Ensure hdc is installed and on PATH.''))
   \<and> \<not> isinstance (RuntimeError (lit ''Unable to execute '' @ [39] @ lit ''hdc'' @ [39]
                            @ lit ''. Ensure hdc is installed and on PATH.''))
          (lit ''EnvironmentError'')
   \<and> \<not> isinstance (RuntimeError (lit ''Unable to execute '' @ [39] @ lit ''hdc'' @ [39]
                            @ lit ''. Ensure hdc is installed and on PATH.''))
          (lit ''OSError'')"
  by (simp add: hdc_run_def Let_def missing_spawn_def RuntimeError_class)

text \<open>
  C4, amended. When the spawn reports that the executable is not found, \<open>run\<close> of either
  runner raises and returns no result; what it raises is a \<open>RuntimeError\<close>, a class
  that derives from \<open>Exception\<close>, and its message quotes the resolved executable path.
  For \<open>HvigorRunner.run\<close> the process is spawned only for a project directory that is
  given, whose expansion returns, and that exists.
\<close>

theorem run_executable_not_found:
  "(spawn (hdc_command executable device args) None timeout (final_env os env) = FileNotFoundError
      \<longrightarrow> hdc_run os spawn executable args device timeout env m =
            Inl (RuntimeError (lit ''Unable to execute '' @ [39] @ executable @ [39]
                                 @ lit ''. Ensure hdc is installed and on PATH.'')))
   \<and> (project_dir \<noteq> [] \<and> expanduser os (expandvars os project_dir) = Inr resolved
        \<and> isdir os resolved
        \<and> spawn ([executable] @ args) (Some resolved) timeout (final_env os env)
            = FileNotFoundError
      \<longrightarrow> hvigor_run os spawn executable args project_dir timeout env m =
            Inl (RuntimeError (lit ''Unable to execute '' @ [39] @ executable @ [39]
                                 @ lit ''. Ensure hvigorw exists in the project ''
                                 @ lit ''or set HVIGORW_PATH to the wrapper path.'')))
   \<and> exc_class (RuntimeError msg) = lit ''RuntimeError''
   \<and> exc_str (RuntimeError msg) = Inr msg
   \<and> isinstance (RuntimeError msg) (lit ''Exception'')"
  by (simp add: hdc_run_def hvigor_run_def Let_def RuntimeError_class)

text \<open>
  The two messages for the executables \<open>/opt/hdc\<close> and \<open>./hvigorw\<close>.
\<close>

theorem run_executable_not_found_witness:
  "hdc_run example_os missing_spawn (lit ''/opt/hdc'') [lit ''list'', lit ''targets''] None 15 None 500
     = Inl (RuntimeError (lit ''Unable to execute '' @ [39] @ lit ''/opt/hdc'' @ [39]
                            @ lit ''. Ensure hdc is installed and on PATH.''))
   \<and> hvigor_run example_os missing_spawn (lit ''./hvigorw'') [lit ''clean''] (lit ''/proj'') 900 None 100
     = Inl (RuntimeError (lit ''Unable to execute '' @ [39] @ lit ''./hvigorw'' @ [39]
                            @ lit ''. Ensure hvigorw exists in the project ''
                            @ lit ''or set HVIGORW_PATH to the wrapper path.''))"
proof -
  have dir: "lit ''/proj'' \<noteq> []
      \<and> expanduser example_os (expandvars example_os (lit ''/proj'')) = Inr (lit ''/proj'')
      \<and> isdir example_os (lit ''/proj'')"
    by (simp add: isdir_def example_os_def lit_def)
  note t = run_executable_not_found [where os = example_os and spawn = missing_spawn and env = None]
  have 1: "hdc_run example_os missing_spawn (lit ''/opt/hdc'') [lit ''list'', lit ''targets''] None 15 None 500
     = Inl (RuntimeError (lit ''Unable to execute '' @ [39] @ lit ''/opt/hdc'' @ [39]
                            @ lit ''. Ensure hdc is installed and on PATH.''))"
    using t [THEN conjunct1, rule_format, of "lit ''/opt/hdc''" None "[lit ''list'', lit ''targets'']" 15 500]
    by (simp add: missing_spawn_def)
  have 2: "hvigor_run example_os missing_spawn (lit ''./hvigorw'') [lit ''clean''] (lit ''/proj'') 900 None 100
     = Inl (RuntimeError (lit ''Unable to execute '' @ [39] @ lit ''./hvigorw'' @ [39]
                            @ lit ''. Ensure hvigorw exists in the project ''
                            @ lit ''or set HVIGORW_PATH to the wrapper path.''))"
    using t [THEN conjunct2, THEN conjunct1, rule_format,
        where project_dir = "lit ''/proj''" and resolved = "lit ''/proj''"
          and executable = "lit ''./hvigorw''" and args = "[lit ''clean'']"
          and timeout = 900 and m = 100] dir
    by (simp add: missing_spawn_def)
  show ?thesis using 1 2 by (rule conjI)
qed

text \<open>
  C3 as stated fails: an operation that raises \<open>KeyboardInterrupt\<close>, which does not
  derive from \<open>Exception\<close>, is not caught by \<open>except Exception\<close>; the wrapper raises
  it in turn and returns no payload.
\<close>

theorem wrapped_propagates_base_exception:
  "snd (wrapped example_env (lit ''shell'') (\<lambda>args kwargs. Inl KeyboardInterrupt) []
          [(lit ''command'', PStr (lit ''ls''))])
     = Inl KeyboardInterrupt"
  by (simp add: wrapped_def Let_def isinstance_def KeyboardInterrupt_def lit_def)

text \<open>
  C3, amended. Whenever the operation raises an exception whose class derives from
  \<open>Exception\<close> and of which \<open>str\<close> gives a text, the wrapper raises nothing and
  returns the failure payload: a dict with \<open>success\<close> false, \<open>error\<close> that text,
  \<open>error_type\<close> the name of the class, \<open>tool\<close> the name of the operation,
  \<open>log_file\<close> the path of the log file and \<open>traceback\<close> the formatted stack trace.
  Whenever the operation raises an exception whose class does not derive from
  \<open>Exception\<close>, the wrapper raises that exception.
\<close>

theorem wrapped_exception_payload:
  "(func args kwargs = Inl exc \<and> isinstance exc (lit ''Exception'') \<and> exc_str exc = Inr msg
      \<longrightarrow> snd (wrapped env name func args kwargs) =
            Inr (PDict [(lit ''success'', PBool False),
                        (lit ''error'', PStr msg),
                        (lit ''error_type'', PStr (exc_class exc)),
                        (lit ''tool'', PStr name),
                        (lit ''log_file'', PStr (log_file_path env)),
                        (lit ''traceback'', PStr (format_exc env exc))]))
   \<and> (func args kwargs = Inl exc \<and> \<not> isinstance exc (lit ''Exception'')
      \<longrightarrow> snd (wrapped env name func args kwargs) = Inl exc)"
  by (simp add: wrapped_def Let_def format_tool_exception_def)

text \<open>
  The operation \<open>shell\<close> raising \<open>ValueError('bad arg')\<close>, and raising
  \<open>SystemExit(1)\<close>.
\<close>

theorem wrapped_exception_payload_witness:
  "snd (wrapped example_env (lit ''shell'') (\<lambda>args kwargs. Inl (ValueError (lit ''bad arg''))) []
          [(lit ''command'', PStr (lit ''ls''))])
     = Inr (PDict [(lit ''success'', PBool False),
                   (lit ''error'', PStr (lit ''bad arg'')),
                   (lit ''error_type'', PStr (lit ''ValueError'')),
                   (lit ''tool'', PStr (lit ''shell'')),
                   (lit ''log_file'', PStr (lit ''/tmp/harmony-tools.log'')),
                   (lit ''traceback'', PStr (lit ''Traceback (most recent call last): ValueError''))])
   \<and> snd (wrapped example_env (lit ''shell'') (\<lambda>args kwargs. Inl SystemExit) []
          [(lit ''command'', PStr (lit ''ls''))])
     = Inl SystemExit"
proof -
  have i: "isinstance (ValueError (lit ''bad arg'')) (lit ''Exception'')"
    "exc_str (ValueError (lit ''bad arg'')) = Inr (lit ''bad arg'')"
    by (simp_all add: isinstance_def ValueError_def Exception_bases_def)
  have n: "\<not> isinstance SystemExit (lit ''Exception'')"
    by (simp add: isinstance_def SystemExit_def lit_def)
  have 1: "snd (wrapped example_env (lit ''shell'') (\<lambda>args kwargs. Inl (ValueError (lit ''bad arg''))) []
          [(lit ''command'', PStr (lit ''ls''))])
     = Inr (PDict [(lit ''success'', PBool False),
                   (lit ''error'', PStr (lit ''bad arg'')),
                   (lit ''error_type'', PStr (exc_class (ValueError (lit ''bad arg'')))),
                   (lit ''tool'', PStr (lit ''shell'')),
                   (lit ''log_file'', PStr (log_file_path example_env)),
                   (lit ''traceback'', PStr (format_exc example_env (ValueError (lit ''bad arg''))))])"
    using wrapped_exception_payload [THEN conjunct1, rule_format,
        of "\<lambda>args kwargs. Inl (ValueError (lit ''bad arg''))" "[]" "[(lit ''command'', PStr (lit ''ls''))]"
           "ValueError (lit ''bad arg'')" "lit ''bad arg''" example_env "lit ''shell''"] i
    by simp
  have 2: "snd (wrapped example_env (lit ''shell'') (\<lambda>args kwargs. Inl SystemExit) []
          [(lit ''command'', PStr (lit ''ls''))]) = Inl SystemExit"
    using wrapped_exception_payload [THEN conjunct2, rule_format,
        of "\<lambda>args kwargs. Inl SystemExit" "[]" "[(lit ''command'', PStr (lit ''ls''))]"
           SystemExit example_env "lit ''shell''"] n
    by simp
  show ?thesis
    using 1 2 by (simp add: ValueError_def example_env_def lit_def)
qed

text \<open>
  C10. Whenever the operation returns a value, the wrapper returns that value as it is:
  the classification and the log entries are written to the log only. The value need not
  be a dict.
\<close>

theorem wrapped_returns_result:
  assumes "func args kwargs = Inr result"
  shows "snd (wrapped env name func args kwargs) = Inr result"
  using assms by (simp add: wrapped_def Let_def split: prod.splits)

text \<open>
  A dict with the exit code 3 is classified as a failure and still returned unchanged; a
  string is returned unchanged.
\<close>

theorem wrapped_returns_result_witness:
  "snd (wrapped example_env (lit ''shell'')
          (\<lambda>args kwargs. Inr (PDict [(lit ''returncode'', PInt 3), (lit ''stderr'', PStr (lit ''no device''))]))
          [] [(lit ''command'', PStr (lit ''ls''))])
     = Inr (PDict [(lit ''returncode'', PInt 3), (lit ''stderr'', PStr (lit ''no device''))])
   \<and> classify (PDict [(lit ''returncode'', PInt 3), (lit ''stderr'', PStr (lit ''no device''))])
     = (Status_returncode (PInt 3), False)
   \<and> snd (wrapped example_env (lit ''list_targets'') (\<lambda>args kwargs. Inr (PStr (lit ''ok''))) [] [])
     = Inr (PStr (lit ''ok''))"
proof -
  have 1: "snd (wrapped example_env (lit ''shell'')
          (\<lambda>args kwargs. Inr (PDict [(lit ''returncode'', PInt 3), (lit ''stderr'', PStr (lit ''no device''))]))
          [] [(lit ''command'', PStr (lit ''ls''))])
     = Inr (PDict [(lit ''returncode'', PInt 3), (lit ''stderr'', PStr (lit ''no device''))])"
    by (rule wrapped_returns_result) simp
  have 2: "snd (wrapped example_env (lit ''list_targets'') (\<lambda>args kwargs. Inr (PStr (lit ''ok''))) [] [])
     = Inr (PStr (lit ''ok''))"
    by (rule wrapped_returns_result) simp
  have 3: "classify (PDict [(lit ''returncode'', PInt 3), (lit ''stderr'', PStr (lit ''no device''))])
     = (Status_returncode (PInt 3), False)"
    by (simp add: classify_def lit_def)
  show ?thesis using 1 2 3 by simp
qed

section \<open>The executable resolver, case by case\<close>






section \<open>Quoting a command and tokenizing it again\<close>

text \<open>
  A safe character is neither whitespace nor a quote nor the backslash: inside a word
  the lexer appends it.
\<close>

lemma safe_char_plain: "is_safe_char c \<Longrightarrow> c \<notin> whitespace \<and> c \<notin> quotes \<and> c \<noteq> 92"
  by (auto simp: is_safe_char_def whitespace_def quotes_def)

lemma shlex_run_safe_word:
  "list_all is_safe_char cs \<Longrightarrow>
     shlex_run In_Word esc tok q (cs @ rest) = shlex_run In_Word esc (tok @ cs) q rest"
proof (induction cs arbitrary: tok)
  case Nil
  show ?case by simp
next
  case (Cons c cs)
  then have "c \<notin> whitespace \<and> c \<notin> quotes \<and> c \<noteq> 92" and "list_all is_safe_char cs"
    by (simp_all add: safe_char_plain)
  with Cons.IH [of "tok @ [c]"] show ?case by simp
qed

text \<open>
  Inside single quotes, the replacement text of \<open>p\<close> followed by the closing quote
  appends exactly \<open>p\<close> to the token: a character other than the quote is taken as it
  is, and the five characters that stand for a quote close the single quotes, give one
  quote within double quotes, and open single quotes again.
\<close>

lemma shlex_run_quoted:
  "shlex_run (In_Quote 39) esc tok q (replace_quotes p @ 39 # rest)
     = shlex_run In_Word esc (tok @ p) True rest"
proof (induction p arbitrary: tok q)
  case Nil
  show ?case by (simp add: replace_quotes_def)
next
  case (Cons c p)
  show ?case
  proof (cases "c = 39")
    case True
    have "replace_quotes (c # p) = [39, 34, 39, 34, 39] @ replace_quotes p"
      using True by (simp add: replace_quotes_def)
    then show ?thesis
      using Cons.IH [of "tok @ [39]" True] True by (simp add: quotes_def whitespace_def)
  next
    case False
    have "replace_quotes (c # p) = c # replace_quotes p"
      using False by (simp add: replace_quotes_def)
    then show ?thesis
      using Cons.IH [of "tok @ [c]" True] False by simp
  qed
qed

lemma shlex_run_word_end:
  "tok \<noteq> [] \<or> q \<Longrightarrow> shlex_run In_Word esc tok q [] = Inr [tok]"
  "tok \<noteq> [] \<or> q \<Longrightarrow>
     shlex_run In_Word esc tok q (32 # rest) = emit tok (shlex_run SP SP [] False rest)"
  by (auto simp: whitespace_def)

lemma shlex_run_quote_open:
  "shlex_run SP esc tok q (39 # rest) = shlex_run (In_Quote 39) esc tok q rest"
  by (simp add: whitespace_def quotes_def)

text \<open>
  One quoted part, at the end of the input or before a space, gives one token: the part.
\<close>

lemma shlex_run_quoted_word:
  "shlex_run SP SP [] False (shlex_quote p) = Inr [p]"
  "shlex_run SP SP [] False (shlex_quote p @ 32 # rest) = emit p (shlex_run SP SP [] False rest)"
proof -
  have q: "shlex_run SP SP [] False ([39] @ replace_quotes p @ [39] @ r)
             = shlex_run In_Word SP p True r" for r
    using shlex_run_quoted [of SP "[]" False p r]
    by (simp add: shlex_run_quote_open del: shlex_run.simps)
  have s: "shlex_run SP SP [] False (p @ r) = shlex_run In_Word SP p False r"
    if "p \<noteq> []" and "list_all is_safe_char p" for r
  proof -
    from that obtain c cs where p: "p = c # cs" and "is_safe_char c" and "list_all is_safe_char cs"
      by (cases p) auto
    then show ?thesis
      using shlex_run_safe_word [of cs SP "[c]" False r] safe_char_plain [of c] by simp
  qed
  show "shlex_run SP SP [] False (shlex_quote p) = Inr [p]"
  proof (cases "p \<noteq> [] \<and> list_all is_safe_char p")
    case True
    then show ?thesis
      using s [of "[]"] by (simp add: shlex_quote_def)
  next
    case False
    then have "shlex_quote p = [39] @ replace_quotes p @ [39] @ []"
      by (auto simp: shlex_quote_def replace_quotes_def)
    then show ?thesis
      using q [of "[]"] by (simp del: append.simps shlex_run.simps add: shlex_run_word_end)
  qed
  show "shlex_run SP SP [] False (shlex_quote p @ 32 # rest) = emit p (shlex_run SP SP [] False rest)"
  proof (cases "p \<noteq> [] \<and> list_all is_safe_char p")
    case True
    then show ?thesis
      using s [of "32 # rest"] by (simp add: shlex_quote_def shlex_run_word_end del: shlex_run.simps)
  next
    case False
    then have "shlex_quote p @ 32 # rest = [39] @ replace_quotes p @ [39] @ (32 # rest)"
      by (auto simp: shlex_quote_def replace_quotes_def)
    then show ?thesis
      using q [of "32 # rest"] by (simp del: append.simps shlex_run.simps add: shlex_run_word_end)
  qed
qed

lemma shlex_split_join_quote:
  "shlex_split (join [32] (map shlex_quote argv)) = Inr argv"
proof (induction argv rule: induct_list012)
  case 1
  show ?case by (simp add: shlex_split_def)
next
  case (2 a)
  show ?case by (simp add: shlex_split_def shlex_run_quoted_word del: shlex_run.simps)
next
  case (3 a b bs)
  then show ?case
    by (simp add: shlex_split_def shlex_run_quoted_word del: shlex_run.simps)
qed

text \<open>
  C6. For the result \<open>r\<close> of either runner, tokenizing \<open>r.command_line\<close> with
  \<open>split_arguments\<close>, that is with \<open>shlex.split\<close>, raises nothing and gives back
  \<open>r.command\<close>, whatever strings the command holds.
\<close>

theorem command_line_roundtrip:
  "split_arguments (command_line r) = Inr (command r)"
  by (simp add: split_arguments_def command_line_def shlex_split_join_quote)

text \<open>
  The command \<open>['shell', 'ls -la', 'a b']\<close>: the two parts with a space are put in
  single quotes, and the three parts come back.
\<close>

theorem command_line_roundtrip_witness:
  "command_line \<lparr>command = [lit ''shell'', lit ''ls -la'', lit ''a b''], stdout = Text [], stderr = Text [],
                  returncode = 0, timed_out = False\<rparr>
     = lit ''shell '' @ [39] @ lit ''ls -la'' @ [39, 32, 39] @ lit ''a b'' @ [39]
   \<and> split_arguments (lit ''shell '' @ [39] @ lit ''ls -la'' @ [39, 32, 39] @ lit ''a b'' @ [39])
     = Inr [lit ''shell'', lit ''ls -la'', lit ''a b'']"
proof -
  let ?r = "\<lparr>command = [lit ''shell'', lit ''ls -la'', lit ''a b''], stdout = Text [], stderr = Text [],
             returncode = 0, timed_out = False\<rparr>"
  have c: "command_line ?r = lit ''shell '' @ [39] @ lit ''ls -la'' @ [39, 32, 39] @ lit ''a b'' @ [39]"
    by (simp add: command_line_def shlex_quote_def is_safe_char_def replace_quotes_def lit_def)
  have "split_arguments (command_line ?r) = Inr (command ?r)"
    by (rule command_line_roundtrip)
  then show ?thesis
    unfolding c by (simp add: c)
qed

end
